theory Spec2Isabelle
  imports Complex_Main "HOL-Library.Char_ord" "HOL-Library.List_Lexorder"
    "HOL-Library.Product_Lexorder"
begin

section \<open>Python values\<close>

text \<open>
  The two scripts (\<^verbatim>\<open>scripts/fetch_news.py\<close>, \<^verbatim>\<open>scripts/fetch_prices.py\<close>) traverse
  untyped provider payloads and dump JSON documents. A Python float is a finite double, an
  infinity or NaN; every finite double is a rational number, so \<open>Finite\<close> carries a
  rational (the model admits more finite values than there are doubles, never fewer).
\<close>

datatype pyfloat = Finite rat | PosInf | NegInf | NaN

datatype pyval =
    PNone
  | PBool bool
  | PInt int
  | PFloat pyfloat
  | PStr string
  | PList "pyval list"
  | PDict "(string \<times> pyval) list"

text \<open>The exceptions the scripts can meet; all of them derive from \<^verbatim>\<open>Exception\<close>.\<close>

datatype error =
    AttributeError
  | TypeError
  | KeyError
  | ValueError
  | OverflowError
  | JSONDecodeError
  | ProviderError

definition ebind :: "error + 'a \<Rightarrow> ('a \<Rightarrow> error + 'b) \<Rightarrow> error + 'b" where
  "ebind m f = (case m of Inl e \<Rightarrow> Inl e | Inr v \<Rightarrow> f v)"

fun is_dict :: "pyval \<Rightarrow> bool" where
  "is_dict (PDict d) = True"
| "is_dict v = False"

fun is_list :: "pyval \<Rightarrow> bool" where
  "is_list (PList xs) = True"
| "is_list v = False"

text \<open>\<^verbatim>\<open>key in d\<close>; the scripts only evaluate it behind \<^verbatim>\<open>isinstance(d, dict)\<close>.\<close>

fun has_key :: "pyval \<Rightarrow> string \<Rightarrow> bool" where
  "has_key (PDict d) k = (map_of d k \<noteq> None)"
| "has_key v k = False"

text \<open>\<^verbatim>\<open>d[key]\<close> with a string key.\<close>

fun py_getitem :: "pyval \<Rightarrow> string \<Rightarrow> error + pyval" where
  "py_getitem (PDict d) k = (case map_of d k of None \<Rightarrow> Inl KeyError | Some v \<Rightarrow> Inr v)"
| "py_getitem v k = Inl TypeError"

text \<open>\<^verbatim>\<open>d.get(key, default)\<close>: only a dict has the method.\<close>

fun py_get :: "pyval \<Rightarrow> string \<Rightarrow> pyval \<Rightarrow> error + pyval" where
  "py_get (PDict d) k dflt = (case map_of d k of None \<Rightarrow> Inr dflt | Some v \<Rightarrow> Inr v)"
| "py_get v k dflt = Inl AttributeError"

text \<open>
  \<^verbatim>\<open>for x in v[:n]\<close>: the entries the loop visits. A list gives its first \<open>n\<close> entries, a
  string its first \<open>n\<close> characters as one-character strings; slicing a dict raises
  (\<^verbatim>\<open>TypeError\<close> up to Python 3.11, \<^verbatim>\<open>KeyError\<close> from 3.12), and \<^verbatim>\<open>None\<close>, booleans
  and numbers are not subscriptable.
\<close>

fun py_slice_iter :: "nat \<Rightarrow> pyval \<Rightarrow> error + pyval list" where
  "py_slice_iter n (PList xs) = Inr (take n xs)"
| "py_slice_iter n (PStr s) = Inr (map (\<lambda>c. PStr [c]) (take n s))"
| "py_slice_iter n v = Inl TypeError"

text \<open>
  \<^verbatim>\<open>d[key] = value\<close> on a dict: an existing key keeps its position, a new key goes last.
\<close>

fun dict_set :: "(string \<times> pyval) list \<Rightarrow> string \<Rightarrow> pyval \<Rightarrow> (string \<times> pyval) list" where
  "dict_set [] k v = [(k, v)]"
| "dict_set ((k', v') # d) k v = (if k' = k then (k, v) # d else (k', v') # dict_set d k v)"

fun py_setitem :: "pyval \<Rightarrow> string \<Rightarrow> pyval \<Rightarrow> error + pyval" where
  "py_setitem (PDict d) k v = Inr (PDict (dict_set d k v))"
| "py_setitem w k v = Inl TypeError"

section \<open>News normalization (fetch\_news.py, lines 39--59)\<close>

text \<open>Lines 40--45: which value becomes \<^verbatim>\<open>articles\<close>.\<close>

definition resolve_articles :: "pyval \<Rightarrow> error + pyval" where
  "resolve_articles raw_news =
     (if is_dict raw_news \<and> has_key raw_news ''news'' then py_getitem raw_news ''news''
      else if is_list raw_news then Inr raw_news
      else Inr (PList []))"

text \<open>Line 50.\<close>

definition unwrap_content :: "pyval \<Rightarrow> error + pyval" where
  "unwrap_content article =
     (if is_dict article then py_get article ''content'' article else Inr article)"

text \<open>Lines 53--58, one definition per key of the dict literal.\<close>

definition get_title :: "pyval \<Rightarrow> error + pyval" where
  "get_title content = py_get content ''title'' (PStr '''')"

definition get_publisher :: "pyval \<Rightarrow> error + pyval" where
  "get_publisher content =
     ebind (py_get content ''provider'' PNone) (\<lambda>p.
       if is_dict p
       then ebind (py_get content ''provider'' (PDict [])) (\<lambda>q. py_get q ''displayName'' (PStr ''''))
       else py_get content ''publisher'' (PStr ''''))"

definition get_link :: "pyval \<Rightarrow> error + pyval" where
  "get_link content =
     ebind (py_get content ''canonicalUrl'' PNone) (\<lambda>p.
       if is_dict p
       then ebind (py_get content ''canonicalUrl'' (PDict [])) (\<lambda>q. py_get q ''url'' (PStr ''''))
       else ebind (py_get content ''url'' (PStr '''')) (\<lambda>u. py_get content ''link'' u))"

definition get_publishedAt :: "pyval \<Rightarrow> error + pyval" where
  "get_publishedAt content =
     ebind (py_get content ''providerPublishTime'' (PStr '''')) (\<lambda>t.
       py_get content ''pubDate'' t)"

definition get_thumbnail :: "pyval \<Rightarrow> error + pyval" where
  "get_thumbnail content =
     ebind (py_get content ''thumbnail'' PNone) (\<lambda>p.
       if is_dict p
       then ebind (py_get content ''thumbnail'' (PDict [])) (\<lambda>q. py_get q ''originalUrl'' (PStr ''''))
       else Inr (PStr ''''))"

text \<open>
  Line 58. The conditional expression tests \<^verbatim>\<open>content.get("finance", {})\<close> first; only
  when that is a dict are the two nested \<^verbatim>\<open>get\<close>s evaluated (the default argument
  eagerly), otherwise the value is \<^verbatim>\<open>[]\<close>.
\<close>

definition get_relatedTickers :: "pyval \<Rightarrow> error + pyval" where
  "get_relatedTickers content =
     ebind (py_get content ''finance'' (PDict [])) (\<lambda>f.
       if is_dict f
       then ebind (py_get content ''finance'' (PDict [])) (\<lambda>g.
              ebind (py_get g ''relatedTickers'' (PList [])) (\<lambda>r.
                py_get content ''relatedTickers'' r))
       else Inr (PList []))"

text \<open>Lines 50--59 for one entry: \<open>None\<close> when nothing is appended.\<close>

definition normalize_article :: "pyval \<Rightarrow> error + pyval option" where
  "normalize_article article =
     ebind (unwrap_content article) (\<lambda>content.
       if is_dict content then
         ebind (get_title content) (\<lambda>title.
         ebind (get_publisher content) (\<lambda>publisher.
         ebind (get_link content) (\<lambda>link.
         ebind (get_publishedAt content) (\<lambda>publishedAt.
         ebind (get_thumbnail content) (\<lambda>thumbnail.
         ebind (get_relatedTickers content) (\<lambda>relatedTickers.
           Inr (Some (PDict
             [(''title'', title),
              (''publisher'', publisher),
              (''link'', link),
              (''publishedAt'', publishedAt),
              (''thumbnail'', thumbnail),
              (''relatedTickers'', relatedTickers)]))))))))
       else Inr None)"

text \<open>The loop of lines 48--59, \<open>processed\<close> being the list built so far.\<close>

fun process_articles :: "pyval list \<Rightarrow> pyval list \<Rightarrow> error + pyval list" where
  "process_articles processed [] = Inr processed"
| "process_articles processed (article # rest) =
     (case normalize_article article of
        Inl e \<Rightarrow> Inl e
      | Inr None \<Rightarrow> process_articles processed rest
      | Inr (Some a) \<Rightarrow> process_articles (processed @ [a]) rest)"

text \<open>Lines 40--59: from the raw response to \<^verbatim>\<open>processed\<close>.\<close>

definition news_normalize :: "pyval \<Rightarrow> error + pyval list" where
  "news_normalize raw_news =
     ebind (resolve_articles raw_news) (\<lambda>articles.
     ebind (py_slice_iter 20 articles) (\<lambda>entries.
       process_articles [] entries))"

section \<open>Price normalization (fetch\_prices.py, lines 63--72)\<close>

text \<open>
  One row of the provider's frame as \<^verbatim>\<open>iterrows\<close> yields it: the five columns, all
  floats (a row of mixed columns is upcast to float64).
\<close>

record row =
  Open :: pyfloat
  High :: pyfloat
  Low :: pyfloat
  Close :: pyfloat
  Volume :: pyfloat

text \<open>
  \<^verbatim>\<open>int(x)\<close> on a float truncates toward zero; it raises \<^verbatim>\<open>ValueError\<close> on NaN and
  \<^verbatim>\<open>OverflowError\<close> on an infinity.
\<close>

fun py_int :: "pyfloat \<Rightarrow> error + int" where
  "py_int (Finite q) = Inr (if q < 0 then - \<lfloor>- q\<rfloor> else \<lfloor>q\<rfloor>)"
| "py_int NaN = Inl ValueError"
| "py_int PosInf = Inl OverflowError"
| "py_int NegInf = Inl OverflowError"

text \<open>
  What the scripts call and do not define: the provider client, the library's date
  formatting and float rounding, and the clock.
  \<^item> \<open>history env ticker\<close> is \<^verbatim>\<open>yf.Ticker(ticker).history(period="1y", interval="1d")\<close>:
    the rows in index order, or the exception raised;
  \<^item> \<open>news_of env code ticker\<close> is \<^verbatim>\<open>yf.Ticker(ticker).news\<close> as read while \<open>code\<close> is
    processed;
  \<^item> \<open>strftime_ymd env date\<close> is \<^verbatim>\<open>date.strftime("%Y-%m-%d")\<close>;
  \<^item> \<open>round3 env x\<close> is \<^verbatim>\<open>round(x, 3)\<close> on a float (it never raises);
  \<^item> \<open>fetched_at env code\<close> is \<^verbatim>\<open>time.strftime("%Y-%m-%dT%H:%M:%SZ")\<close> at the moment the
    artifact of \<open>code\<close> is dumped, \<open>index_time env\<close> the same for the index.
\<close>

record 'd env =
  history :: "string \<Rightarrow> error + ('d \<times> row) list"
  news_of :: "string \<Rightarrow> string \<Rightarrow> error + pyval"
  strftime_ymd :: "'d \<Rightarrow> string"
  round3 :: "pyfloat \<Rightarrow> pyfloat"
  fetched_at :: "string \<Rightarrow> string"
  index_time :: string

text \<open>Lines 65--72: the dict appended for one row. Only \<^verbatim>\<open>int\<close> can raise.\<close>

definition price_bar :: "'d env \<Rightarrow> 'd \<Rightarrow> row \<Rightarrow> error + pyval" where
  "price_bar env date row =
     ebind (py_int (Volume row)) (\<lambda>volume.
       Inr (PDict
         [(''date'', PStr (strftime_ymd env date)),
          (''open'', PFloat (round3 env (Open row))),
          (''high'', PFloat (round3 env (High row))),
          (''low'', PFloat (round3 env (Low row))),
          (''close'', PFloat (round3 env (Close row))),
          (''volume'', PInt volume)]))"

text \<open>The loop of lines 63--72, \<open>prices\<close> being the list built so far.\<close>

fun price_rows :: "'d env \<Rightarrow> pyval list \<Rightarrow> ('d \<times> row) list \<Rightarrow> error + pyval list" where
  "price_rows env prices [] = Inr prices"
| "price_rows env prices ((date, row) # rest) =
     (case price_bar env date row of
        Inl e \<Rightarrow> Inl e
      | Inr bar \<Rightarrow> price_rows env (prices @ [bar]) rest)"

section \<open>The runs\<close>

text \<open>
  A file of the output directory holds a JSON document or text that \<^verbatim>\<open>json.load\<close>
  rejects (a file cut short, say). The directory is created with \<^verbatim>\<open>exist_ok=True\<close> and
  never emptied, so a run starts from whatever files are there.
\<close>

datatype disk_file = Json pyval | Corrupt

fun json_load :: "disk_file \<Rightarrow> error + pyval" where
  "json_load (Json v) = Inr v"
| "json_load Corrupt = Inl JSONDecodeError"

definition out_path :: "string \<Rightarrow> string" where
  "out_path code = code @ ''.json''"

text \<open>
  The state both scripts keep across the loop: the output directory, the index dict
  (\<^verbatim>\<open>news_index\<close>, \<^verbatim>\<open>price_index\<close>) and the two counters.
\<close>

record run_state =
  files :: "string \<rightharpoonup> disk_file"
  index :: "(string \<times> pyval) list"
  success_count :: nat
  error_count :: nat

text \<open>
  The price script also keeps \<^verbatim>\<open>seen_tickers\<close>. \<open>calls\<close> is not a variable of the
  script: it lists the tickers \<^verbatim>\<open>history\<close> was invoked for, in order.
\<close>

record price_state = run_state +
  seen_tickers :: "string \<rightharpoonup> string"
  calls :: "string list"

text \<open>\<^verbatim>\<open>sorted(ticker_map.items())\<close>; the dict is given by its items (keys distinct).\<close>

definition sorted_items :: "(string \<times> string) list \<Rightarrow> (string \<times> string) list" where
  "sorted_items ticker_map = sort ticker_map"

definition index_doc :: "'d env \<Rightarrow> (string \<times> pyval) list \<Rightarrow> nat \<Rightarrow> pyval" where
  "index_doc env stocks n =
     PDict [(''stocks'', PDict stocks),
            (''fetchedAt'', PStr (index_time env)),
            (''totalStocks'', PInt (int n))]"

subsection \<open>fetch\_news.py\<close>

text \<open>Lines 36--69, the body of the \<^verbatim>\<open>try\<close>.\<close>

definition news_body :: "'d env \<Rightarrow> run_state \<Rightarrow> string \<Rightarrow> string \<Rightarrow> error + run_state" where
  "news_body env st code ticker =
     ebind (news_of env code ticker) (\<lambda>raw_news.
     ebind (news_normalize raw_news) (\<lambda>processed.
       if processed \<noteq> [] then
         Inr (st\<lparr>files := (files st)(out_path code \<mapsto>
                   Json (PDict [(''ticker'', PStr ticker),
                                (''code'', PStr code),
                                (''articles'', PList processed),
                                (''fetchedAt'', PStr (fetched_at env code))])),
                 index := dict_set (index st) code
                   (PDict [(''ticker'', PStr ticker),
                           (''count'', PInt (int (length processed)))]),
                 success_count := success_count st + 1\<rparr>)
       else Inr st))"

text \<open>Lines 35--73: one iteration; \<^verbatim>\<open>except Exception\<close> counts the failure.\<close>

definition news_step :: "'d env \<Rightarrow> run_state \<Rightarrow> string \<Rightarrow> string \<Rightarrow> run_state" where
  "news_step env st code ticker =
     (case news_body env st code ticker of
        Inl e \<Rightarrow> st\<lparr>error_count := error_count st + 1\<rparr>
      | Inr st' \<Rightarrow> st')"

fun news_loop :: "'d env \<Rightarrow> run_state \<Rightarrow> (string \<times> string) list \<Rightarrow> run_state" where
  "news_loop env st [] = st"
| "news_loop env st ((code, ticker) # rest) = news_loop env (news_step env st code ticker) rest"

definition initial_news :: "(string \<rightharpoonup> disk_file) \<Rightarrow> run_state" where
  "initial_news fs = \<lparr>files = fs, index = [], success_count = 0, error_count = 0\<rparr>"

text \<open>Lines 30--82: the loop, then the index.\<close>

definition news_main :: "'d env \<Rightarrow> (string \<rightharpoonup> disk_file) \<Rightarrow> (string \<times> string) list \<Rightarrow> run_state" where
  "news_main env fs ticker_map =
     (let st = news_loop env (initial_news fs) (sorted_items ticker_map)
      in st\<lparr>files := (files st)(''index.json'' \<mapsto>
                Json (index_doc env (index st) (success_count st)))\<rparr>)"

subsection \<open>fetch\_prices.py\<close>

text \<open>
  Lines 39--51, the reuse of an already written artifact. Nothing here is inside a
  \<^verbatim>\<open>try\<close>: an exception leaves the loop and the script. (\<^verbatim>\<open>data.get\<close> runs after the
  dump in the source; on the dict that the assignment accepted it cannot raise.)
\<close>

definition reuse :: "price_state \<Rightarrow> string \<Rightarrow> string \<Rightarrow> string \<Rightarrow> error + price_state" where
  "reuse st code ticker src_code =
     (case files st (out_path src_code) of
        None \<Rightarrow> Inr st
      | Some f \<Rightarrow>
          ebind (json_load f) (\<lambda>data.
          ebind (py_setitem data ''code'' (PStr code)) (\<lambda>data'.
          ebind (py_get data' ''days'' (PInt 0)) (\<lambda>days.
            Inr (st\<lparr>files := (files st)(out_path code \<mapsto> Json data'),
                    index := dict_set (index st) code
                      (PDict [(''ticker'', PStr ticker), (''days'', days)]),
                    success_count := success_count st + 1\<rparr>)))))"

text \<open>Lines 56--86, the body of the \<^verbatim>\<open>try\<close>.\<close>

definition fetch_and_write :: "'d env \<Rightarrow> price_state \<Rightarrow> string \<Rightarrow> string \<Rightarrow> error + price_state" where
  "fetch_and_write env st code ticker =
     ebind (history env ticker) (\<lambda>hist.
       if hist = [] then Inr st
       else
         ebind (price_rows env [] hist) (\<lambda>prices.
           Inr (st\<lparr>files := (files st)(out_path code \<mapsto>
                     Json (PDict [(''ticker'', PStr ticker),
                                  (''code'', PStr code),
                                  (''days'', PInt (int (length prices))),
                                  (''prices'', PList prices),
                                  (''fetchedAt'', PStr (fetched_at env code))])),
                   index := dict_set (index st) code
                     (PDict [(''ticker'', PStr ticker),
                             (''days'', PInt (int (length prices)))]),
                   success_count := success_count st + 1\<rparr>)))"

text \<open>
  Lines 37--90: one iteration. \<open>Inl\<close> is an exception that no handler catches.
\<close>

definition price_step :: "'d env \<Rightarrow> price_state \<Rightarrow> string \<Rightarrow> string \<Rightarrow> error + price_state" where
  "price_step env st code ticker =
     (case seen_tickers st ticker of
        Some src_code \<Rightarrow> reuse st code ticker src_code
      | None \<Rightarrow>
          (let st1 = st\<lparr>seen_tickers := (seen_tickers st)(ticker \<mapsto> code),
                        calls := calls st @ [ticker]\<rparr>
           in case fetch_and_write env st1 code ticker of
                Inl e \<Rightarrow> Inr (st1\<lparr>error_count := error_count st1 + 1\<rparr>)
              | Inr st2 \<Rightarrow> Inr st2))"

text \<open>
  The loop of line 36. An uncaught exception ends it with the state reached so far.
\<close>

fun price_loop :: "'d env \<Rightarrow> price_state \<Rightarrow> (string \<times> string) list \<Rightarrow> price_state \<times> error option" where
  "price_loop env st [] = (st, None)"
| "price_loop env st ((code, ticker) # rest) =
     (case price_step env st code ticker of
        Inl e \<Rightarrow> (st, Some e)
      | Inr st' \<Rightarrow> price_loop env st' rest)"

definition initial_prices :: "(string \<rightharpoonup> disk_file) \<Rightarrow> price_state" where
  "initial_prices fs =
     \<lparr>files = fs, index = [], success_count = 0, error_count = 0,
      seen_tickers = Map.empty, calls = []\<rparr>"

text \<open>Lines 30--99: the loop, then the index unless an exception ended the run.\<close>

definition price_main :: "'d env \<Rightarrow> (string \<rightharpoonup> disk_file) \<Rightarrow> (string \<times> string) list \<Rightarrow> price_state \<times> error option" where
  "price_main env fs ticker_map =
     (case price_loop env (initial_prices fs) (sorted_items ticker_map) of
        (st, Some e) \<Rightarrow> (st, Some e)
      | (st, None) \<Rightarrow>
          (st\<lparr>files := (files st)(''index.json'' \<mapsto>
                 Json (index_doc env (index st) (success_count st)))\<rparr>, None))"

section \<open>Notions the properties are stated with\<close>

text \<open>What one entry contributes to \<^verbatim>\<open>processed\<close>: its article, or nothing.\<close>

definition emitted :: "pyval \<Rightarrow> pyval list" where
  "emitted article = (case normalize_article article of Inr (Some a) \<Rightarrow> [a] | _ \<Rightarrow> [])"

text \<open>
  Shape resolution in the specification's words: a record containing key \<open>news\<close> gives
  that value; else a sequence gives itself; else the empty sequence.
\<close>

definition spec_resolve :: "pyval \<Rightarrow> pyval" where
  "spec_resolve raw =
     (case raw of
        PDict d \<Rightarrow> (case map_of d ''news'' of Some v \<Rightarrow> v | None \<Rightarrow> PList [])
      | PList xs \<Rightarrow> PList xs
      | _ \<Rightarrow> PList [])"

fun is_str :: "pyval \<Rightarrow> bool" where
  "is_str (PStr s) = True"
| "is_str v = False"

text \<open>A response whose \<open>news\<close> value, when it has one, can be sliced.\<close>

definition news_shape_ok :: "pyval \<Rightarrow> bool" where
  "news_shape_ok raw =
     (case raw of
        PDict d \<Rightarrow> (case map_of d ''news'' of Some v \<Rightarrow> is_list v \<or> is_str v | None \<Rightarrow> True)
      | _ \<Rightarrow> True)"

text \<open>The keys lines 53--58 look up in \<^verbatim>\<open>content\<close>.\<close>

definition optional_fields :: "string list" where
  "optional_fields =
     [''title'', ''provider'', ''publisher'', ''canonicalUrl'', ''link'', ''url'',
      ''pubDate'', ''providerPublishTime'', ''thumbnail'', ''relatedTickers'', ''finance'']"

definition empty_article :: pyval where
  "empty_article =
     PDict [(''title'', PStr ''''),
            (''publisher'', PStr ''''),
            (''link'', PStr ''''),
            (''publishedAt'', PStr ''''),
            (''thumbnail'', PStr ''''),
            (''relatedTickers'', PList [])]"

text \<open>A float that \<^verbatim>\<open>int\<close> accepts.\<close>

fun is_finite :: "pyfloat \<Rightarrow> bool" where
  "is_finite (Finite q) = True"
| "is_finite v = False"

text \<open>
  The bar the specification describes for one row: the date formatted, the four prices
  rounded, the volume as an integer.
\<close>

definition price_bar_of :: "'d env \<Rightarrow> 'd \<times> row \<Rightarrow> pyval" where
  "price_bar_of env dr =
     (case dr of (date, row) \<Rightarrow>
        PDict [(''date'', PStr (strftime_ymd env date)),
               (''open'', PFloat (round3 env (Open row))),
               (''high'', PFloat (round3 env (High row))),
               (''low'', PFloat (round3 env (Low row))),
               (''close'', PFloat (round3 env (Close row))),
               (''volume'', PInt (case Volume row of
                                    Finite q \<Rightarrow> (if q < 0 then - \<lfloor>- q\<rfloor> else \<lfloor>q\<rfloor>)
                                  | _ \<Rightarrow> 0))])"

text \<open>
  The artifact of \<open>code\<close> when the prices were fetched while \<open>src_code\<close> was processed.
\<close>

definition price_artifact :: "'d env \<Rightarrow> string \<Rightarrow> string \<Rightarrow> pyval list \<Rightarrow> string \<Rightarrow> pyval" where
  "price_artifact env ticker code prices src_code =
     PDict [(''ticker'', PStr ticker),
            (''code'', PStr code),
            (''days'', PInt (int (length prices))),
            (''prices'', PList prices),
            (''fetchedAt'', PStr (fetched_at env src_code))]"

text \<open>The tickers \<^verbatim>\<open>history\<close> was invoked for are distinct and are the keys of the cache.\<close>

definition tracked :: "price_state \<Rightarrow> bool" where
  "tracked st = (distinct (calls st) \<and> set (calls st) = dom (seen_tickers st))"

text \<open>
  The attempt for a ticker leaves nothing to reuse: \<^verbatim>\<open>history\<close> raises, or returns an
  empty frame, or a row does not convert.
\<close>

definition yields_no_prices :: "'d env \<Rightarrow> string \<Rightarrow> bool" where
  "yields_no_prices env ticker =
     (case history env ticker of
        Inl e \<Rightarrow> True
      | Inr hist \<Rightarrow>
          hist = [] \<or> (case price_rows env [] hist of Inl e \<Rightarrow> True | Inr prices \<Rightarrow> False))"

subsection \<open>A provider and rows to run the scripts on\<close>

text \<open>
  Two rows whose prices are doubles with at most three decimals (10.5, 11, -1, 10.25), so
  that \<^verbatim>\<open>round(x, 3)\<close> returns them as they are; both rows have a negative low and one
  a zero volume. A row with a NaN volume. A provider that knows three tickers and raises
  on any other.
\<close>

definition demo_row :: row where
  "demo_row = \<lparr>Open = Finite (21 / 2), High = Finite 11, Low = Finite (-1), Close = Finite (41 / 4),
               Volume = Finite 0\<rparr>"

definition demo_hist :: "(nat \<times> row) list" where
  "demo_hist = [(2, demo_row), (3, demo_row\<lparr>Volume := Finite 1200\<rparr>)]"

definition nan_hist :: "(nat \<times> row) list" where
  "nan_hist = [(2, demo_row\<lparr>Volume := NaN\<rparr>)]"

definition demo_env :: "nat env" where
  "demo_env =
     \<lparr>history = (\<lambda>ticker. if ticker = ''0001.HK'' then Inr demo_hist
                          else if ticker = ''0005.HK'' then Inr []
                          else if ticker = ''0011.HK'' then Inr nan_hist
                          else Inl ProviderError),
      news_of = (\<lambda>code ticker.
                   if ticker = ''0001.HK'' then Inr (PDict [(''news'', PList [PDict [(''title'', PStr ''X'')]])])
                   else if ticker = ''0005.HK'' then Inr (PList [])
                   else Inl ProviderError),
      strftime_ymd = (\<lambda>d. if d = 2 then ''2024-01-02'' else ''2024-01-03''),
      round3 = (\<lambda>x. x),
      fetched_at = (\<lambda>code. ''2024-01-04T00:00:00Z''),
      index_time = ''2024-01-04T00:00:01Z''\<rparr>"

definition demo_prices :: "pyval list" where
  "demo_prices = map (price_bar_of demo_env) demo_hist"

text \<open>Two codes of one ticker, given out of order.\<close>

definition shared_map :: "string \<Rightarrow> (string \<times> string) list" where
  "shared_map ticker = [(''0002'', ticker), (''0001'', ticker)]"

text \<open>
  Output directories a run can start from: one where an earlier run left the artifact of
  code 0001, one where that file was cut short; and the state of the price loop after
  code 0001 has been fetched.
\<close>

definition stale_dir :: "string \<rightharpoonup> disk_file" where
  "stale_dir = [out_path ''0001'' \<mapsto>
     Json (price_artifact demo_env ''0700.HK'' ''0001'' demo_prices ''0001'')]"

definition corrupt_dir :: "string \<rightharpoonup> disk_file" where
  "corrupt_dir = [out_path ''0001'' \<mapsto> Corrupt]"


text \<open>An empty directory, and the state of the price loop after a failed fetch for code 0001.\<close>

definition empty_dir :: "string \<rightharpoonup> disk_file" where
  "empty_dir = Map.empty"

definition after_failed :: price_state where
  "after_failed =
     \<lparr>files = empty_dir, index = [], success_count = 0, error_count = 1,
      seen_tickers = [''0700.HK'' \<mapsto> ''0001''], calls = [''0700.HK'']\<rparr>"

text \<open>Two codes of a ticker the provider fails on, then a code of a ticker it serves.\<close>

definition aborting_map :: "(string \<times> string) list" where
  "aborting_map = [(''0001'', ''0700.HK''), (''0002'', ''0700.HK''), (''0003'', ''0001.HK'')]"

section \<open>News normalization: the guards keep every lookup on a dict\<close>

lemma is_dict_iff: "is_dict v = (\<exists>d. v = PDict d)"
  by (cases v) simp_all

lemma get_title_total: "\<exists>v. get_title (PDict d) = Inr v"
  by (simp add: get_title_def split: option.splits)

lemma get_publisher_total: "\<exists>v. get_publisher (PDict d) = Inr v"
  by (auto simp: get_publisher_def ebind_def is_dict_iff split: option.splits)

lemma get_link_total: "\<exists>v. get_link (PDict d) = Inr v"
  by (auto simp: get_link_def ebind_def is_dict_iff split: option.splits)

lemma get_publishedAt_total: "\<exists>v. get_publishedAt (PDict d) = Inr v"
  by (auto simp: get_publishedAt_def ebind_def split: option.splits)

lemma get_thumbnail_total: "\<exists>v. get_thumbnail (PDict d) = Inr v"
  by (auto simp: get_thumbnail_def ebind_def is_dict_iff split: option.splits)

lemma get_relatedTickers_total: "\<exists>v. get_relatedTickers (PDict d) = Inr v"
  by (auto simp: get_relatedTickers_def ebind_def is_dict_iff split: option.splits)

lemma unwrap_content_total: "\<exists>c. unwrap_content article = Inr c"
  by (cases article) (simp_all add: unwrap_content_def split: option.splits)

lemma normalize_article_total: "\<exists>r. normalize_article article = Inr r"
proof -
  obtain c where c: "unwrap_content article = Inr c"
    using unwrap_content_total by blast
  show ?thesis
  proof (cases "is_dict c")
    case False
    with c show ?thesis by (simp add: normalize_article_def ebind_def)
  next
    case True
    then obtain d where d: "c = PDict d" by (auto simp: is_dict_iff)
    obtain t p l a th r where
      "get_title (PDict d) = Inr t" "get_publisher (PDict d) = Inr p"
      "get_link (PDict d) = Inr l" "get_publishedAt (PDict d) = Inr a"
      "get_thumbnail (PDict d) = Inr th" "get_relatedTickers (PDict d) = Inr r"
      using get_title_total get_publisher_total get_link_total get_publishedAt_total
        get_thumbnail_total get_relatedTickers_total by metis
    with c d show ?thesis by (simp add: normalize_article_def ebind_def)
  qed
qed

lemma process_articles_eq:
  "process_articles processed entries = Inr (processed @ concat (map emitted entries))"
proof (induction entries arbitrary: processed)
  case Nil
  show ?case by simp
next
  case (Cons article rest)
  obtain r where r: "normalize_article article = Inr r"
    using normalize_article_total by blast
  show ?case
    by (cases r) (simp_all add: r emitted_def Cons.IH)
qed

lemma length_emitted: "length (emitted article) \<le> 1"
  by (simp add: emitted_def split: sum.splits option.splits)

lemma length_concat_emitted: "length (concat (map emitted xs)) \<le> length xs"
proof (induction xs)
  case Nil
  show ?case by simp
next
  case (Cons x xs)
  have "length (emitted x) \<le> 1" by (rule length_emitted)
  with Cons.IH show ?case by simp
qed

lemma emitted_str: "emitted (PStr s) = []"
  by (simp add: emitted_def normalize_article_def unwrap_content_def ebind_def)

lemma resolve_articles_spec: "resolve_articles raw_news = Inr (spec_resolve raw_news)"
  by (cases raw_news) (auto simp: resolve_articles_def spec_resolve_def split: option.splits)

lemma news_normalize_list:
  assumes "spec_resolve raw_news = PList xs"
  shows "news_normalize raw_news = Inr (concat (map emitted (take 20 xs)))"
  using assms by (simp add: news_normalize_def resolve_articles_spec ebind_def process_articles_eq)

lemma news_normalize_str:
  assumes "spec_resolve raw_news = PStr s"
  shows "news_normalize raw_news = Inr []"
  using assms
  by (simp add: news_normalize_def resolve_articles_spec ebind_def process_articles_eq
      emitted_str)

lemma length_take_20: "length (concat (map emitted (take 20 xs))) \<le> 20"
proof -
  have "length (concat (map emitted (take 20 xs))) \<le> length (take 20 xs)"
    by (rule length_concat_emitted)
  then show ?thesis by simp
qed

text \<open>
  C5. Shape resolution follows the priority order record-with-\<open>news\<close>, sequence, empty;
  and of a resolved list the first 20 entries are processed, each contributing its
  article or nothing, in the order the provider gave them.
\<close>

theorem shape_resolution_and_truncation:
  "resolve_articles raw_news = Inr (spec_resolve raw_news) \<and>
   (\<forall>xs. spec_resolve raw_news = PList xs \<longrightarrow>
      news_normalize raw_news = Inr (concat (map emitted (take 20 xs))) \<and>
      length (concat (map emitted (take 20 xs))) \<le> 20)"
  by (simp add: resolve_articles_spec news_normalize_list length_take_20)

theorem shape_resolution_and_truncation_witness:
  "resolve_articles (PDict [(''news'', PList [PDict [(''content'', PDict [(''title'', PStr ''X'')])]])])
     = Inr (PList [PDict [(''content'', PDict [(''title'', PStr ''X'')])]]) \<and>
   news_normalize (PDict [(''news'', PList [PDict [(''content'', PDict [(''title'', PStr ''X'')])]])])
     = Inr [PDict [(''title'', PStr ''X''), (''publisher'', PStr ''''), (''link'', PStr ''''),
                   (''publishedAt'', PStr ''''), (''thumbnail'', PStr ''''),
                   (''relatedTickers'', PList [])]]"
  using shape_resolution_and_truncation
    [of "PDict [(''news'', PList [PDict [(''content'', PDict [(''title'', PStr ''X'')])]])]"]
  by (simp add: spec_resolve_def emitted_def normalize_article_def unwrap_content_def
      get_title_def get_publisher_def get_link_def get_publishedAt_def get_thumbnail_def
      get_relatedTickers_def ebind_def)

text \<open>
  C4. Normalization completes, with at most 20 articles, on every response whose
  \<open>news\<close> value (when the response is a record that has one) is a list or a string;
  entries of any shape are tolerated.
\<close>

theorem news_normalize_completes:
  "news_shape_ok raw_news \<Longrightarrow>
   \<exists>processed. news_normalize raw_news = Inr processed \<and> length processed \<le> 20"
proof -
  assume ok: "news_shape_ok raw_news"
  have "is_list (spec_resolve raw_news) \<or> is_str (spec_resolve raw_news)"
    using ok by (cases raw_news) (auto simp: news_shape_ok_def spec_resolve_def split: option.splits)
  then consider xs where "spec_resolve raw_news = PList xs" | s where "spec_resolve raw_news = PStr s"
    by (cases "spec_resolve raw_news") auto
  then show ?thesis
  proof cases
    case 1
    then show ?thesis using news_normalize_list length_take_20 by blast
  next
    case 2
    then show ?thesis using news_normalize_str by simp
  qed
qed

theorem news_normalize_completes_witness:
  "news_shape_ok (PDict [(''news'', PList [PInt 7, PDict [(''content'', PStr ''x'')], PDict []])]) \<and>
   (\<exists>processed.
      news_normalize (PDict [(''news'', PList [PInt 7, PDict [(''content'', PStr ''x'')], PDict []])])
        = Inr processed \<and> length processed \<le> 20)"
  using news_normalize_completes
    [where raw_news = "PDict [(''news'', PList [PInt 7, PDict [(''content'', PStr ''x'')], PDict []])]"]
  by (simp add: news_shape_ok_def)

text \<open>A record whose \<open>news\<close> value is \<^verbatim>\<open>None\<close> cannot be sliced.\<close>

theorem news_normalize_raises_on_null_news:
  "news_normalize (PDict [(''news'', PNone)]) = Inl TypeError"
  by (simp add: news_normalize_def resolve_articles_def ebind_def)

text \<open>
  C6, at a record with a direct \<open>relatedTickers\<close> field and a \<open>finance\<close> field that is
  not a record: the direct field is dropped.
\<close>

theorem related_tickers_dropped:
  "get_relatedTickers
     (PDict [(''relatedTickers'', PList [PStr ''0001.HK'']), (''finance'', PNone)])
   = Inr (PList [])"
  by (simp add: get_relatedTickers_def ebind_def)

text \<open>Where \<open>finance\<close> is absent or a record, the direct field does come first.\<close>

lemma related_tickers_finance_absent:
  "map_of d ''finance'' = None \<Longrightarrow>
   get_relatedTickers (PDict d) =
     Inr (case map_of d ''relatedTickers'' of Some r \<Rightarrow> r | None \<Rightarrow> PList [])"
  by (simp add: get_relatedTickers_def ebind_def split: option.splits)

lemma related_tickers_finance_record:
  "map_of d ''finance'' = Some (PDict f) \<Longrightarrow>
   get_relatedTickers (PDict d) =
     Inr (case map_of d ''relatedTickers'' of
            Some r \<Rightarrow> r
          | None \<Rightarrow> (case map_of f ''relatedTickers'' of Some r \<Rightarrow> r | None \<Rightarrow> PList []))"
  by (simp add: get_relatedTickers_def ebind_def split: option.splits)

text \<open>
  C7. A record (after the \<open>content\<close> unwrapping) with none of the optional fields gives
  an article with all six keys, the five strings empty and \<open>relatedTickers\<close> the empty
  list.
\<close>

theorem article_of_bare_record:
  assumes "unwrap_content article = Inr (PDict d)"
    and "\<forall>k \<in> set optional_fields. map_of d k = None"
  shows "normalize_article article = Inr (Some empty_article)"
  using assms
  by (simp add: normalize_article_def optional_fields_def empty_article_def get_title_def
      get_publisher_def get_link_def get_publishedAt_def get_thumbnail_def
      get_relatedTickers_def ebind_def)

theorem article_of_bare_record_witness:
  "unwrap_content (PDict [(''content'', PDict [(''id'', PStr ''a1'')])]) = Inr (PDict [(''id'', PStr ''a1'')]) \<and>
   normalize_article (PDict [(''content'', PDict [(''id'', PStr ''a1'')])]) =
     Inr (Some (PDict [(''title'', PStr ''''), (''publisher'', PStr ''''), (''link'', PStr ''''),
                       (''publishedAt'', PStr ''''), (''thumbnail'', PStr ''''),
                       (''relatedTickers'', PList [])]))"
  using article_of_bare_record
    [of "PDict [(''content'', PDict [(''id'', PStr ''a1'')])]" "[(''id'', PStr ''a1'')]"]
  by (simp add: unwrap_content_def optional_fields_def empty_article_def)

section \<open>Price normalization: one bar per row\<close>

lemma map_of_dict_set: "map_of (dict_set d k v) = (map_of d)(k \<mapsto> v)"
  by (induction d) auto

lemma out_path_inj: "(out_path a = out_path b) = (a = b)"
  by (simp add: out_path_def)

lemma price_bar_finite:
  "is_finite (Volume row) \<Longrightarrow> price_bar env date row = Inr (price_bar_of env (date, row))"
  by (cases "Volume row") (simp_all add: price_bar_def price_bar_of_def ebind_def)

lemma price_bar_not_finite:
  "\<not> is_finite (Volume row) \<Longrightarrow> \<exists>e. price_bar env date row = Inl e"
  by (cases "Volume row") (simp_all add: price_bar_def ebind_def)


lemma price_rows_not_finite:
  "(d, r) \<in> set hist \<Longrightarrow> \<not> is_finite (Volume r) \<Longrightarrow>
   \<exists>e. price_rows env prices hist = Inl e"
proof (induction hist arbitrary: prices)
  case Nil
  then show ?case by simp
next
  case (Cons x rest)
  obtain date row where x: "x = (date, row)" by (cases x)
  show ?case
  proof (cases "is_finite (Volume row)")
    case False
    then have "\<exists>e. price_bar env date row = Inl e"
      by (rule price_bar_not_finite)
    then obtain e where e: "price_bar env date row = Inl e" ..
    have "price_rows env prices ((date, row) # rest) = Inl e"
      by (simp add: e)
    then show ?thesis unfolding x by (rule exI)
  next
    case True
    have "r \<noteq> row"
    proof
      assume "r = row"
      with True Cons.prems(2) show False by simp
    qed
    with Cons.prems(1) x have "(d, r) \<in> set rest" by simp
    then have "\<exists>e. price_rows env (prices @ [price_bar_of env (date, row)]) rest = Inl e"
      using Cons.prems(2) by (rule Cons.IH)
    then obtain e where e: "price_rows env (prices @ [price_bar_of env (date, row)]) rest = Inl e" ..
    have "price_rows env prices ((date, row) # rest) = Inl e"
      by (simp add: e price_bar_finite [OF True])
    then show ?thesis unfolding x by (rule exI)
  qed
qed




section \<open>The price run: what one iteration changes\<close>

lemma price_step_frame:
  assumes "price_step env st code ticker = Inr st'" and "c \<noteq> code"
  shows "files st' (out_path c) = files st (out_path c) \<and>
         map_of (index st') c = map_of (index st) c"
  using assms
  by (auto simp: price_step_def reuse_def fetch_and_write_def ebind_def Let_def
      map_of_dict_set out_path_inj split: option.splits sum.splits if_splits)

lemma price_step_seen:
  assumes "price_step env st code ticker = Inr st'"
  shows "seen_tickers st' =
     (case seen_tickers st ticker of
        None \<Rightarrow> (seen_tickers st)(ticker \<mapsto> code)
      | Some src \<Rightarrow> seen_tickers st)"
  using assms
  by (auto simp: price_step_def reuse_def fetch_and_write_def ebind_def Let_def
      split: option.splits sum.splits if_splits)

lemma price_step_calls:
  assumes "price_step env st code ticker = Inr st'"
  shows "calls st' =
     (case seen_tickers st ticker of
        None \<Rightarrow> calls st @ [ticker]
      | Some src \<Rightarrow> calls st)"
  using assms
  by (auto simp: price_step_def reuse_def fetch_and_write_def ebind_def Let_def
      split: option.splits sum.splits if_splits)

lemma price_step_tracked:
  assumes "price_step env st code ticker = Inr st'" and "tracked st"
  shows "tracked st'"
proof (cases "seen_tickers st ticker")
  case None
  then have "ticker \<notin> set (calls st)"
    using assms(2) by (auto simp: tracked_def)
  then show ?thesis
    using assms(2) None price_step_seen [OF assms(1)] price_step_calls [OF assms(1)]
    by (auto simp: tracked_def)
next
  case (Some src)
  then show ?thesis
    using assms(2) price_step_seen [OF assms(1)] price_step_calls [OF assms(1)]
    by (simp add: tracked_def)
qed

section \<open>The price run: what the loop keeps\<close>

lemma price_loop_frame:
  "price_loop env st items = (st', err) \<Longrightarrow> c \<notin> fst ` set items \<Longrightarrow>
   files st' (out_path c) = files st (out_path c) \<and> map_of (index st') c = map_of (index st) c"
proof (induction items arbitrary: st)
  case Nil
  then show ?case by simp
next
  case (Cons x rest)
  obtain code ticker where x: "x = (code, ticker)" by (cases x)
  from Cons.prems(2) x have ne: "c \<noteq> code" and nin: "c \<notin> fst ` set rest" by auto
  show ?case
  proof (cases "price_step env st code ticker")
    case (Inl e)
    with Cons.prems(1) x show ?thesis by simp
  next
    case (Inr st1)
    with Cons.prems(1) x have "price_loop env st1 rest = (st', err)" by simp
    then have "files st' (out_path c) = files st1 (out_path c) \<and>
        map_of (index st') c = map_of (index st1) c"
      using nin by (rule Cons.IH)
    with price_step_frame [OF Inr ne] show ?thesis by simp
  qed
qed

lemma price_loop_seen_stable:
  "price_loop env st items = (st', err) \<Longrightarrow> seen_tickers st t = Some c \<Longrightarrow>
   seen_tickers st' t = Some c"
proof (induction items arbitrary: st)
  case Nil
  then show ?case by simp
next
  case (Cons x rest)
  obtain code ticker where x: "x = (code, ticker)" by (cases x)
  show ?case
  proof (cases "price_step env st code ticker")
    case (Inl e)
    with Cons.prems x show ?thesis by simp
  next
    case (Inr st1)
    with Cons.prems(1) x have loop: "price_loop env st1 rest = (st', err)" by simp
    have "seen_tickers st1 t = Some c"
      using price_step_seen [OF Inr] Cons.prems(2) by (auto split: option.splits)
    with loop show ?thesis by (rule Cons.IH)
  qed
qed

lemma price_loop_seen_none:
  "price_loop env st items = (st', err) \<Longrightarrow> seen_tickers st t = None \<Longrightarrow>
   t \<notin> snd ` set items \<Longrightarrow> seen_tickers st' t = None"
proof (induction items arbitrary: st)
  case Nil
  then show ?case by simp
next
  case (Cons x rest)
  obtain code ticker where x: "x = (code, ticker)" by (cases x)
  from Cons.prems(3) x have ne: "t \<noteq> ticker" and nin: "t \<notin> snd ` set rest" by auto
  show ?case
  proof (cases "price_step env st code ticker")
    case (Inl e)
    with Cons.prems x show ?thesis by simp
  next
    case (Inr st1)
    with Cons.prems(1) x have loop: "price_loop env st1 rest = (st', err)" by simp
    have "seen_tickers st1 t = None"
      using price_step_seen [OF Inr] Cons.prems(2) ne by (auto split: option.splits)
    with loop show ?thesis using nin by (rule Cons.IH)
  qed
qed

lemma price_loop_tracked:
  "price_loop env st items = (st', err) \<Longrightarrow> tracked st \<Longrightarrow> tracked st'"
proof (induction items arbitrary: st)
  case Nil
  then show ?case by simp
next
  case (Cons x rest)
  obtain code ticker where x: "x = (code, ticker)" by (cases x)
  show ?case
  proof (cases "price_step env st code ticker")
    case (Inl e)
    with Cons.prems x show ?thesis by simp
  next
    case (Inr st1)
    with Cons.prems(1) x have loop: "price_loop env st1 rest = (st', err)" by simp
    have "tracked st1" using Inr Cons.prems(2) by (rule price_step_tracked)
    with loop show ?thesis by (rule Cons.IH)
  qed
qed

lemma price_loop_append:
  "price_loop env st (xs @ ys) =
     (case price_loop env st xs of
        (st', None) \<Rightarrow> price_loop env st' ys
      | (st', Some e) \<Rightarrow> (st', Some e))"
proof (induction xs arbitrary: st)
  case Nil
  show ?case by simp
next
  case (Cons x xs)
  obtain code ticker where x: "x = (code, ticker)" by (cases x)
  show ?case
    by (cases "price_step env st code ticker") (simp_all add: x Cons.IH)
qed

lemma tracked_initial: "tracked (initial_prices fs)"
  by (simp add: tracked_def initial_prices_def)

lemma count_list_distinct: "distinct xs \<Longrightarrow> count_list xs x = (if x \<in> set xs then 1 else 0)"
  by (induction xs) auto

lemma distinct_fst_insort:
  "distinct (map fst (insort x xs)) = (fst x \<notin> fst ` set xs \<and> distinct (map fst xs))"
  by (induction xs) (auto simp: set_insort_key)

lemma distinct_fst_sorted_items: "distinct (map fst (sorted_items m)) = distinct (map fst m)"
  unfolding sorted_items_def
  by (induction m) (simp_all add: distinct_fst_insort)


section \<open>The price run: a ticker shared by several codes\<close>






lemma sorted_shared_map:
  "sorted_items (shared_map ticker) = [(''0001'', ticker), (''0002'', ticker)]"
  by (simp add: sorted_items_def shared_map_def)









section \<open>The news run\<close>





section \<open>The price run: an empty result, a failed first attempt\<close>


lemma price_step_nothing:
  assumes "seen_tickers st t = None" and "yields_no_prices env t"
  shows "\<exists>st'. price_step env st code t = Inr st' \<and> files st' = files st \<and>
               seen_tickers st' t = Some code"
  using assms
  by (auto simp: price_step_def fetch_and_write_def ebind_def Let_def yields_no_prices_def
      split: sum.splits)

lemma price_loop_prefix:
  assumes "price_loop env st (xs @ ys) = (st', None)"
  shows "\<exists>st1. price_loop env st xs = (st1, None) \<and> price_loop env st1 ys = (st', None)"
proof -
  obtain st1 err where xs: "price_loop env st xs = (st1, err)" by (cases "price_loop env st xs")
  with assms show ?thesis by (cases err) (simp_all add: price_loop_append)
qed

lemma seen_initial: "seen_tickers (initial_prices fs) t = None"
  by (simp add: initial_prices_def)


lemma price_later_code_skipped:
  assumes dist: "distinct (map fst items)"
    and split: "items = pre @ (c0, t) # mid @ (c, t) # post"
    and first: "t \<notin> snd ` set pre"
    and fails: "yields_no_prices env t"
    and absent: "fs (out_path c0) = None"
    and reach: "price_loop env (initial_prices fs) (pre @ (c0, t) # mid) = (st1, None)"
  shows "price_step env st1 c t = Inr st1 \<and> count_list (calls st1) t = 1"
proof -
  from dist split have n1: "c0 \<notin> fst ` set pre" and n2: "c0 \<notin> fst ` set mid"
    by auto
  from price_loop_prefix [OF reach] obtain stp where
    pre: "price_loop env (initial_prices fs) pre = (stp, None)"
    and rest: "price_loop env stp ((c0, t) # mid) = (st1, None)" by auto
  have seenp: "seen_tickers stp t = None"
    using pre seen_initial first by (rule price_loop_seen_none)
  from price_loop_frame [OF pre n1] absent
  have fp: "files stp (out_path c0) = None" by (simp add: initial_prices_def)
  have "\<exists>st'. price_step env stp c0 t = Inr st' \<and> files st' = files stp \<and>
      seen_tickers st' t = Some c0"
    using seenp fails by (rule price_step_nothing)
  then obtain sta where
    step: "price_step env stp c0 t = Inr sta" and fa: "files sta = files stp"
    and seena: "seen_tickers sta t = Some c0" by auto
  from rest step have mid: "price_loop env sta mid = (st1, None)" by simp
  from mid seena have seen1: "seen_tickers st1 t = Some c0" by (rule price_loop_seen_stable)
  from price_loop_frame [OF mid n2] fa fp have f1: "files st1 (out_path c0) = None" by simp
  have skip: "price_step env st1 c t = Inr st1"
    by (simp add: price_step_def reuse_def seen1 f1)
  have "tracked st1" using reach tracked_initial by (rule price_loop_tracked)
  then have "distinct (calls st1)" and "t \<in> set (calls st1)"
    using seen1 by (auto simp: tracked_def)
  then have "count_list (calls st1) t = 1" by (simp add: count_list_distinct)
  with skip show ?thesis by simp
qed

lemma price_calls_at_most_once:
  "count_list (calls (fst (price_loop env (initial_prices fs) items))) t \<le> 1"
proof -
  obtain st err where run: "price_loop env (initial_prices fs) items = (st, err)"
    by (cases "price_loop env (initial_prices fs) items")
  then have "tracked st" using tracked_initial by (rule price_loop_tracked)
  then have "distinct (calls st)" by (simp add: tracked_def)
  then show ?thesis by (simp add: run count_list_distinct)
qed



text \<open>
  C10. Across a run \<^verbatim>\<open>history\<close> is invoked at most once for a ticker; the ticker is in
  the cache after its first attempt even when that attempt produced nothing; and a later
  code of that ticker is then skipped with the whole state unchanged, provided the
  directory held no file for the first code when the run began.
\<close>

theorem fetch_at_most_once_then_skip:
  "count_list (calls (fst (price_loop env (initial_prices fs) (sorted_items ticker_map)))) t \<le> 1 \<and>
   (seen_tickers st t = None \<and> yields_no_prices env t \<longrightarrow>
      (\<exists>st'. price_step env st c0 t = Inr st' \<and> files st' = files st \<and>
             seen_tickers st' t = Some c0)) \<and>
   (distinct (map fst ticker_map) \<and>
    sorted_items ticker_map = pre @ (c0, t) # mid @ (c, t) # post \<and>
    t \<notin> snd ` set pre \<and> yields_no_prices env t \<and> fs (out_path c0) = None \<and>
    price_loop env (initial_prices fs) (pre @ (c0, t) # mid) = (st1, None) \<longrightarrow>
      price_step env st1 c t = Inr st1 \<and> count_list (calls st1) t = 1)"
proof (intro conjI impI)
  show "count_list (calls (fst (price_loop env (initial_prices fs) (sorted_items ticker_map)))) t \<le> 1"
    by (rule price_calls_at_most_once)
next
  assume "seen_tickers st t = None \<and> yields_no_prices env t"
  then show "\<exists>st'. price_step env st c0 t = Inr st' \<and> files st' = files st \<and>
      seen_tickers st' t = Some c0"
    by (simp add: price_step_nothing)
next
  assume b: "distinct (map fst ticker_map) \<and>
    sorted_items ticker_map = pre @ (c0, t) # mid @ (c, t) # post \<and>
    t \<notin> snd ` set pre \<and> yields_no_prices env t \<and> fs (out_path c0) = None \<and>
    price_loop env (initial_prices fs) (pre @ (c0, t) # mid) = (st1, None)"
  then have "distinct (map fst ticker_map)" by simp
  then have dist: "distinct (map fst (sorted_items ticker_map))"
    by (simp only: distinct_fst_sorted_items)
  from b have split: "sorted_items ticker_map = pre @ (c0, t) # mid @ (c, t) # post"
    and first: "t \<notin> snd ` set pre" and fails: "yields_no_prices env t"
    and absent: "fs (out_path c0) = None"
    and reach: "price_loop env (initial_prices fs) (pre @ (c0, t) # mid) = (st1, None)"
    by simp_all
  note r = price_later_code_skipped [OF dist split first fails absent reach]
  from r show "price_step env st1 c t = Inr st1" by simp
  from r show "count_list (calls st1) t = 1" by simp
qed

lemma demo_provider_fails: "yields_no_prices demo_env ''0700.HK''"
  by (simp add: yields_no_prices_def demo_env_def)

lemma demo_failed_run:
  "price_loop demo_env (initial_prices empty_dir) ([] @ (''0001'', ''0700.HK'') # []) =
     (after_failed, None)"
  by (simp add: price_step_def fetch_and_write_def ebind_def Let_def demo_env_def
      initial_prices_def after_failed_def)

theorem fetch_at_most_once_then_skip_witness:
  "count_list (calls (fst (price_loop demo_env (initial_prices empty_dir)
     (sorted_items (shared_map ''0700.HK''))))) ''0700.HK'' \<le> 1 \<and>
   seen_tickers (initial_prices empty_dir) ''0700.HK'' = None \<and>
   yields_no_prices demo_env ''0700.HK'' \<and>
   (\<exists>st'. price_step demo_env (initial_prices empty_dir) ''0001'' ''0700.HK'' = Inr st' \<and>
      files st' = files (initial_prices empty_dir) \<and> seen_tickers st' ''0700.HK'' = Some ''0001'') \<and>
   distinct (map fst (shared_map ''0700.HK'')) \<and>
   sorted_items (shared_map ''0700.HK'') =
     [] @ (''0001'', ''0700.HK'') # [] @ (''0002'', ''0700.HK'') # [] \<and>
   ''0700.HK'' \<notin> snd ` set [] \<and>
   empty_dir (out_path ''0001'') = None \<and>
   price_loop demo_env (initial_prices empty_dir) ([] @ (''0001'', ''0700.HK'') # []) =
     (after_failed, None) \<and>
   price_step demo_env after_failed ''0002'' ''0700.HK'' = Inr after_failed \<and>
   count_list (calls after_failed) ''0700.HK'' = 1"
proof -
  have h1: "seen_tickers (initial_prices empty_dir) ''0700.HK'' = None"
    by (simp add: initial_prices_def)
  note h2 = demo_provider_fails
  have h3: "distinct (map fst (shared_map ''0700.HK''))"
    by (simp add: shared_map_def)
  have h4: "sorted_items (shared_map ''0700.HK'') =
      [] @ (''0001'', ''0700.HK'') # [] @ (''0002'', ''0700.HK'') # []"
    by (simp add: sorted_shared_map)
  have h5: "''0700.HK'' \<notin> snd ` set []" by simp
  have h6: "empty_dir (out_path ''0001'') = None" by (simp add: empty_dir_def)
  note h7 = demo_failed_run
  note inst = fetch_at_most_once_then_skip [of demo_env empty_dir "shared_map ''0700.HK''"
      "''0700.HK''" "initial_prices empty_dir" "''0001''" "[]" "[]" "''0002''" "[]" after_failed]
  note c1 = inst [THEN conjunct1]
  from inst [THEN conjunct2, THEN conjunct1] h1 h2
  have c2: "\<exists>st'. price_step demo_env (initial_prices empty_dir) ''0001'' ''0700.HK'' = Inr st' \<and>
      files st' = files (initial_prices empty_dir) \<and> seen_tickers st' ''0700.HK'' = Some ''0001''"
    by (rule mp [OF _ conjI])
  from inst [THEN conjunct2, THEN conjunct2] h3 h4 h5 h2 h6 h7
  have c3: "price_step demo_env after_failed ''0002'' ''0700.HK'' = Inr after_failed \<and>
      count_list (calls after_failed) ''0700.HK'' = 1"
    by (rule mp [OF _ conjI [OF _ conjI [OF _ conjI [OF _ conjI [OF _ conjI]]]]])
  show ?thesis
    by (intro conjI) (rule c1 h1 h2 c2 h3 h4 h5 h6 h7 c3 [THEN conjunct1] c3 [THEN conjunct2])+
qed

text \<open>
  With the artifact of an earlier run in the directory, the later code is not skipped
  although the first attempt of this run raised: the old artifact is cloned and counted.
\<close>

theorem stale_artifact_is_cloned:
  "yields_no_prices demo_env ''0700.HK'' \<and>
   snd (price_main demo_env stale_dir (shared_map ''0700.HK'')) = None \<and>
   files (fst (price_main demo_env stale_dir (shared_map ''0700.HK''))) (out_path ''0002'') =
     Some (Json (price_artifact demo_env ''0700.HK'' ''0002'' demo_prices ''0001'')) \<and>
   map_of (index (fst (price_main demo_env stale_dir (shared_map ''0700.HK'')))) ''0002'' =
     Some (PDict [(''ticker'', PStr ''0700.HK''), (''days'', PInt 2)]) \<and>
   success_count (fst (price_main demo_env stale_dir (shared_map ''0700.HK''))) = 1 \<and>
   error_count (fst (price_main demo_env stale_dir (shared_map ''0700.HK''))) = 1"
proof -
  have len: "length demo_prices = 2"
    by (simp add: demo_prices_def demo_hist_def)
  have h: "history demo_env ''0700.HK'' = Inl ProviderError"
    by (simp add: demo_env_def)
  show ?thesis
    by (simp add: demo_provider_fails price_main_def sorted_shared_map price_step_def
        fetch_and_write_def reuse_def ebind_def Let_def h initial_prices_def stale_dir_def
        price_artifact_def out_path_def len)
qed

text \<open>
  C3, at a directory where the file of code 0001 was cut short, and a provider that
  fails for the ticker of codes 0001 and 0002: the reuse for 0002 raises outside any
  handler, the loop ends there, code 0003 is never processed and no index is written.
\<close>

theorem reuse_failure_aborts_run:
  "snd (price_main demo_env corrupt_dir aborting_map) = Some JSONDecodeError \<and>
   error_count (fst (price_main demo_env corrupt_dir aborting_map)) = 1 \<and>
   calls (fst (price_main demo_env corrupt_dir aborting_map)) = [''0700.HK''] \<and>
   files (fst (price_main demo_env corrupt_dir aborting_map)) (out_path ''0003'') = None \<and>
   files (fst (price_main demo_env corrupt_dir aborting_map)) ''index.json'' = None"
proof -
  have s: "sorted_items aborting_map = aborting_map"
    by (simp add: sorted_items_def aborting_map_def)
  have h: "history demo_env ''0700.HK'' = Inl ProviderError"
    by (simp add: demo_env_def)
  have run: "price_loop demo_env (initial_prices corrupt_dir) aborting_map =
      ((initial_prices corrupt_dir)
         \<lparr>error_count := 1, seen_tickers := [''0700.HK'' \<mapsto> ''0001''], calls := [''0700.HK'']\<rparr>,
       Some JSONDecodeError)"
    by (simp add: aborting_map_def price_step_def fetch_and_write_def reuse_def
        ebind_def Let_def h initial_prices_def corrupt_dir_def)
  show ?thesis
    by (simp add: price_main_def s run) (simp add: initial_prices_def corrupt_dir_def out_path_def)
qed

text \<open>The other branch, the fetch of a ticker not yet in the cache, never raises.\<close>

lemma price_step_first_never_raises:
  "seen_tickers st ticker = None \<Longrightarrow> \<exists>st'. price_step env st code ticker = Inr st'"
  by (simp add: price_step_def Let_def split: sum.splits)

end
